theory Spec2Isabelle
  imports Main "HOL-Library.Word"
begin

unbundle bit_operations_syntax

section \<open>PROXY protocol v2 preamble handling\<close>

text \<open>
  The development embeds the connection handler of the PROXY protocol v2 example server
  (\<^verbatim>\<open>checkSignature\<close> and \<^verbatim>\<open>handle\<close>), together with the parts of Go's standard
  library that the handler calls: \<^verbatim>\<open>io.ReadFull\<close>, \<^verbatim>\<open>binary.BigEndian.Uint16\<close>,
  \<^verbatim>\<open>net.IPv4\<close> and \<^verbatim>\<open>IP.To4\<close>.
\<close>

subsection \<open>Bytes, panics, indexing and slicing\<close>

type_synonym byte = "8 word"
type_synonym uint16 = "16 word"

text \<open>Go panics at run time on an index or a slice bound out of range.\<close>

datatype panic = IndexOutOfRange | SliceBoundsOutOfRange

text \<open>\<^verbatim>\<open>s[i]\<close>\<close>

definition index :: "'a list \<Rightarrow> nat \<Rightarrow> panic + 'a" where
  "index s i = (if i < length s then Inr (s ! i) else Inl IndexOutOfRange)"

text \<open>
  \<^verbatim>\<open>s[lo:hi]\<close>. Every slice of the handler comes from \<^verbatim>\<open>make([]byte, n)\<close>, whose capacity
  is its length, so the upper bound is checked against the length.
\<close>

definition slice_of :: "'a list \<Rightarrow> nat \<Rightarrow> nat \<Rightarrow> panic + 'a list" where
  "slice_of s lo hi =
     (if hi \<le> length s \<and> lo \<le> hi then Inr (take (hi - lo) (drop lo s))
      else Inl SliceBoundsOutOfRange)"

subsection \<open>The connection and \<^verbatim>\<open>io.ReadFull\<close>\<close>

text \<open>
  The errors a read of the connection can end with: the peer closed the stream
  (\<^verbatim>\<open>io.EOF\<close>), the read deadline passed (\<^verbatim>\<open>os.ErrDeadlineExceeded\<close>, the timeout
  error of package net), or the connection failed otherwise. \<^verbatim>\<open>io.ErrUnexpectedEOF\<close>
  is made by \<^verbatim>\<open>io.ReadAtLeast\<close> only.
\<close>

datatype io_error = EOF | ErrUnexpectedEOF | ErrDeadlineExceeded | ErrConnection

text \<open>
  A connection, seen from its reading side: the bytes still to arrive, in the pieces in
  which the network delivers them, and the error that every \<^verbatim>\<open>Read\<close> returns once these
  are used up.
\<close>

record conn =
  segments :: "byte list list"
  closing :: io_error

text \<open>The unread bytes of the stream, whatever pieces they arrive in.\<close>

definition remaining :: "conn \<Rightarrow> byte list" where
  "remaining c = concat (segments c)"

text \<open>
  \<^verbatim>\<open>c.Read(b)\<close> with \<^verbatim>\<open>len(b) = k\<close>: the bytes stored into \<^verbatim>\<open>b\<close>, the error, and the
  connection afterwards. A read into an empty buffer returns at once; a read never takes
  more than the next piece, nor more than \<open>k\<close> bytes.
\<close>

definition Read :: "conn \<Rightarrow> nat \<Rightarrow> (byte list \<times> io_error option) \<times> conn" where
  "Read c k =
     (if k = 0 then (([], None), c)
      else (case segments c of
              [] \<Rightarrow> (([], Some (closing c)), c)
            | s # ss \<Rightarrow>
                (if k < length s
                 then ((take k s, None), c\<lparr>segments := drop k s # ss\<rparr>)
                 else ((s, None), c\<lparr>segments := ss\<rparr>))))"

text \<open>
  \<^verbatim>\<open>io.ReadFull(r, buf)\<close> is \<^verbatim>\<open>io.ReadAtLeast(r, buf, len(buf))\<close>, whose loop is
  \<^verbatim>\<open>for n < min && err == nil { nn, err = r.Read(buf[n:]); n += nn }\<close>
  with \<^verbatim>\<open>min = len(buf)\<close>. Here \<open>n\<close> is \<^verbatim>\<open>len(buf)\<close> and \<open>got\<close> is the part of the
  buffer filled so far.
\<close>

function ReadFull_loop ::
  "conn \<Rightarrow> nat \<Rightarrow> byte list \<Rightarrow> (byte list \<times> io_error option) \<times> conn" where
  "ReadFull_loop c n got =
     (if length got < n then
        (case Read c (n - length got) of
           ((bs, Some e), c') \<Rightarrow> ((got @ bs, Some e), c')
         | ((bs, None), c') \<Rightarrow> ReadFull_loop c' n (got @ bs))
      else ((got, None), c))"
  by pat_completeness auto
termination
  apply (relation "measure (\<lambda>(c, n, got). length (concat (segments c)) + length (segments c))")
   apply simp
  apply (auto simp: Read_def split: if_splits list.splits)
  done

declare ReadFull_loop.simps [simp del]

text \<open>
  The result of \<^verbatim>\<open>io.ReadFull\<close> on a fresh \<^verbatim>\<open>make([]byte, n)\<close>: the buffer afterwards
  (zero where nothing was stored) and the error. After the loop,
  \<^verbatim>\<open>if n >= min { err = nil } else if n > 0 && err == EOF { err = ErrUnexpectedEOF }\<close>.
\<close>

definition ReadFull :: "conn \<Rightarrow> nat \<Rightarrow> (byte list \<times> io_error option) \<times> conn" where
  "ReadFull c n =
     (case ReadFull_loop c n [] of
        ((got, err), c') \<Rightarrow>
          (let buf = got @ replicate (n - length got) 0 in
           if n \<le> length got then ((buf, None), c')
           else if 0 < length got \<and> err = Some EOF then ((buf, Some ErrUnexpectedEOF), c')
           else ((buf, err), c')))"

subsection \<open>\<^verbatim>\<open>encoding/binary\<close> and package \<^verbatim>\<open>net\<close>\<close>

text \<open>
  \<^verbatim>\<open>binary.BigEndian.Uint16(b)\<close>:
  \<^verbatim>\<open>_ = b[1]; return uint16(b[1]) | uint16(b[0])<<8\<close>.
\<close>

definition Uint16 :: "byte list \<Rightarrow> panic + uint16" where
  "Uint16 b =
     (case index b 1 of
        Inl p \<Rightarrow> Inl p
      | Inr b1 \<Rightarrow>
          (case index b 0 of
             Inl p \<Rightarrow> Inl p
           | Inr b0 \<Rightarrow> Inr (ucast b1 OR push_bit 8 (ucast b0))))"

text \<open>A \<^verbatim>\<open>net.IP\<close> is a byte slice of length 4 or 16; \<^verbatim>\<open>nil\<close> is the empty list.\<close>

type_synonym IP = "byte list"

definition v4InV6Prefix :: "byte list" where
  "v4InV6Prefix = [0, 0, 0, 0, 0, 0, 0, 0, 0, 0, 0xff, 0xff]"

text \<open>\<^verbatim>\<open>net.IPv4(a, b, c, d)\<close>: the 16-byte form of the IPv4 address a.b.c.d.\<close>

definition IPv4 :: "byte \<Rightarrow> byte \<Rightarrow> byte \<Rightarrow> byte \<Rightarrow> IP" where
  "IPv4 a b c d = v4InV6Prefix @ [a, b, c, d]"

text \<open>
  \<^verbatim>\<open>ip.To4()\<close>: the 4-byte form of an IPv4 address in either form, \<^verbatim>\<open>nil\<close> for anything
  else. It is what \<^verbatim>\<open>ip.String()\<close> prints in dotted decimal.
\<close>

definition To4 :: "IP \<Rightarrow> IP" where
  "To4 ip =
     (if length ip = 4 then ip
      else if length ip = 16 \<and> list_all (\<lambda>x. x = 0) (take 10 ip)
              \<and> ip ! 10 = 0xff \<and> ip ! 11 = 0xff
      then take 4 (drop 12 ip)
      else [])"

subsection \<open>The signature\<close>

definition ppv2Signature :: "byte list" where
  "ppv2Signature = [0x0D, 0x0A, 0x0D, 0x0A, 0x00, 0x0D, 0x0A, 0x51, 0x52, 0x4F, 0x54, 0x0A]"

text \<open>
  The loop of \<^verbatim>\<open>checkSignature\<close>:
  \<^verbatim>\<open>for i := 0; i < len(ppv2Signature); i++ { if sig[i] != ppv2Signature[i] { return false } }\<close>
\<close>

function checkSignature_loop :: "byte list \<Rightarrow> nat \<Rightarrow> panic + bool" where
  "checkSignature_loop sig i =
     (if i < length ppv2Signature then
        (case index sig i of
           Inl p \<Rightarrow> Inl p
         | Inr a \<Rightarrow>
             (case index ppv2Signature i of
                Inl p \<Rightarrow> Inl p
              | Inr b \<Rightarrow> if a \<noteq> b then Inr False else checkSignature_loop sig (Suc i)))
      else Inr True)"
  by pat_completeness auto
termination
  by (relation "measure (\<lambda>(sig, i). length ppv2Signature - i)") auto

declare checkSignature_loop.simps [simp del]

definition checkSignature :: "byte list \<Rightarrow> panic + bool" where
  "checkSignature sig =
     (if length sig \<noteq> length ppv2Signature then Inr False
      else checkSignature_loop sig 0)"

subsection \<open>The handler\<close>

text \<open>
  \<^verbatim>\<open>handle\<close> returns nothing: what it tells about a connection is the line it logs
  before it returns. One constructor for each \<^verbatim>\<open>log\<close> call that is followed by
  \<^verbatim>\<open>return\<close>, with the values the line prints.
\<close>

datatype logline =
    ErrorReadingInitialHeader io_error
  | NoValidSignature
  | UnsupportedVersion byte
  | CommandNotPROXY byte
  | ErrorReadingAddressBlock io_error
  | NotEnoughDataIPv4
  | NotEnoughDataIPv6
  | UnrecognizedAddressFamily byte

text \<open>
  Control flow: a statement goes on to the next one with a value, returns from the
  handler after a log line, or panics.
\<close>

datatype 'a flow = Next 'a | Return logline | Panic panic

fun lift :: "panic + 'a \<Rightarrow> 'a flow" where
  "lift (Inl p) = Panic p"
| "lift (Inr a) = Next a"

fun and_then :: "'a flow \<Rightarrow> ('a \<Rightarrow> 'b flow) \<Rightarrow> 'b flow" where
  "and_then (Next a) f = f a"
| "and_then (Return l) f = Return l"
| "and_then (Panic p) f = Panic p"

text \<open>The variables \<^verbatim>\<open>srcIP\<close>, \<^verbatim>\<open>dstIP\<close>, \<^verbatim>\<open>srcPort\<close> and \<^verbatim>\<open>dstPort\<close> of the handler.\<close>

record endpoints =
  srcIP :: IP
  dstIP :: IP
  srcPort :: uint16
  dstPort :: uint16

text \<open>
  Steps 2 to 4 of \<^verbatim>\<open>handle\<close>, on the header buffer: the signature, the version and the
  command are checked in this order, and the step goes on with \<^verbatim>\<open>famProto\<close> and
  \<^verbatim>\<open>addrLen\<close>.
\<close>

definition handle_header :: "byte list \<Rightarrow> (byte \<times> uint16) flow" where
  "handle_header header =
     and_then (lift (slice_of header 0 12)) (\<lambda>sig.
     and_then (lift (checkSignature sig)) (\<lambda>ok.
     if \<not> ok then Return NoValidSignature else
     and_then (lift (index header 12)) (\<lambda>verCmd.
     and_then (lift (index header 13)) (\<lambda>famProto.
     let version = drop_bit 4 verCmd in
     if version \<noteq> 2 then Return (UnsupportedVersion version) else
     let cmd = verCmd AND 0x0F in
     if cmd \<noteq> 0x1 then Return (CommandNotPROXY cmd) else
     and_then (lift (slice_of header 14 16)) (\<lambda>lenBytes.
     and_then (lift (Uint16 lenBytes)) (\<lambda>addrLen.
     Next (famProto, addrLen)))))))"

text \<open>Step 6 of \<^verbatim>\<open>handle\<close>, on the address block: the switch on the family.\<close>

definition handle_addrBlock :: "byte \<Rightarrow> byte list \<Rightarrow> endpoints flow" where
  "handle_addrBlock famProto addrBlock =
     (let family = drop_bit 4 famProto in
      if family = 0x1 then
        if length addrBlock < 12 then Return NotEnoughDataIPv4 else
        and_then (lift (index addrBlock 0)) (\<lambda>a0.
        and_then (lift (index addrBlock 1)) (\<lambda>a1.
        and_then (lift (index addrBlock 2)) (\<lambda>a2.
        and_then (lift (index addrBlock 3)) (\<lambda>a3.
        and_then (lift (index addrBlock 4)) (\<lambda>a4.
        and_then (lift (index addrBlock 5)) (\<lambda>a5.
        and_then (lift (index addrBlock 6)) (\<lambda>a6.
        and_then (lift (index addrBlock 7)) (\<lambda>a7.
        and_then (lift (slice_of addrBlock 8 10)) (\<lambda>sp.
        and_then (lift (Uint16 sp)) (\<lambda>sport.
        and_then (lift (slice_of addrBlock 10 12)) (\<lambda>dp.
        and_then (lift (Uint16 dp)) (\<lambda>dport.
        Next \<lparr>srcIP = IPv4 a0 a1 a2 a3, dstIP = IPv4 a4 a5 a6 a7,
              srcPort = sport, dstPort = dport\<rparr>))))))))))))
      else if family = 0x2 then
        if length addrBlock < 36 then Return NotEnoughDataIPv6 else
        and_then (lift (slice_of addrBlock 0 16)) (\<lambda>src.
        and_then (lift (slice_of addrBlock 16 32)) (\<lambda>dst.
        and_then (lift (slice_of addrBlock 32 34)) (\<lambda>sp.
        and_then (lift (Uint16 sp)) (\<lambda>sport.
        and_then (lift (slice_of addrBlock 34 36)) (\<lambda>dp.
        and_then (lift (Uint16 dp)) (\<lambda>dport.
        Next \<lparr>srcIP = src, dstIP = dst, srcPort = sport, dstPort = dport\<rparr>))))))
      else Return (UnrecognizedAddressFamily family))"

text \<open>
  \<^verbatim>\<open>handle\<close>, from the first read to the end of the switch: the flow at that point and
  the connection as the reads have left it. \<open>Next e\<close> is the handler going on to its
  step 7, the application data, with the decoded endpoints \<open>e\<close>; step 7 itself, the
  echo of the example, is not part of the embedding. The handler first sets a read
  deadline of five seconds on the connection. Time is not modelled: a connection whose
  awaited bytes do not arrive before the deadline is one whose \<open>closing\<close> error is
  \<open>ErrDeadlineExceeded\<close>.
\<close>

definition handle :: "conn \<Rightarrow> endpoints flow \<times> conn" where
  "handle raw =
     (case ReadFull raw 16 of
        ((header, Some e), raw1) \<Rightarrow> (Return (ErrorReadingInitialHeader e), raw1)
      | ((header, None), raw1) \<Rightarrow>
          (case handle_header header of
             Return l \<Rightarrow> (Return l, raw1)
           | Panic p \<Rightarrow> (Panic p, raw1)
           | Next (famProto, addrLen) \<Rightarrow>
               (case ReadFull raw1 (unat addrLen) of
                  ((addrBlock, Some err), raw2) \<Rightarrow> (Return (ErrorReadingAddressBlock err), raw2)
                | ((addrBlock, None), raw2) \<Rightarrow> (handle_addrBlock famProto addrBlock, raw2))))"

section \<open>Properties\<close>

subsection \<open>Reading from the connection\<close>

lemma Read_None:
  "Read c k = ((bs, None), c') \<Longrightarrow>
     length bs \<le> k \<and> remaining c = bs @ remaining c' \<and> closing c' = closing c"
  by (auto simp: Read_def remaining_def split: if_splits list.splits)

lemma Read_Some:
  "Read c k = ((bs, Some e), c') \<Longrightarrow>
     0 < k \<and> bs = [] \<and> remaining c = [] \<and> c' = c \<and> e = closing c"
  by (auto simp: Read_def remaining_def split: if_splits list.splits)

lemma ReadFull_loop_spec:
  "length got \<le> n \<Longrightarrow>
   fst (ReadFull_loop c n got) =
     (if n - length got \<le> length (remaining c)
      then (got @ take (n - length got) (remaining c), None)
      else (got @ remaining c, Some (closing c))) \<and>
   remaining (snd (ReadFull_loop c n got)) = drop (n - length got) (remaining c) \<and>
   closing (snd (ReadFull_loop c n got)) = closing c"
proof (induction c n got rule: ReadFull_loop.induct)
  case (1 c n got)
  show ?case
  proof (cases "length got < n")
    case False
    with "1.prems" show ?thesis by (subst (1 2 3) ReadFull_loop.simps) simp
  next
    case True
    obtain bs err c' where r: "Read c (n - length got) = ((bs, err), c')"
      by (metis prod.exhaust)
    show ?thesis
    proof (cases err)
      case (Some e)
      with r True Read_Some [of c "n - length got" bs e c'] show ?thesis
        by (subst (1 2 3) ReadFull_loop.simps) simp
    next
      case None
      from r None Read_None [of c "n - length got" bs c']
      have f: "length bs \<le> n - length got" "remaining c = bs @ remaining c'"
        "closing c' = closing c" by auto
      from f True have g: "length (got @ bs) \<le> n" by simp
      have step: "ReadFull_loop c n got = ReadFull_loop c' n (got @ bs)"
        using r None True by (subst ReadFull_loop.simps) simp
      from f g "1.IH" [OF True r [symmetric] refl None g] show ?thesis
        unfolding step by auto
    qed
  qed
qed

lemma ReadFull_enough:
  assumes "n \<le> length (remaining c)"
  shows "fst (ReadFull c n) = (take n (remaining c), None)"
    and "remaining (snd (ReadFull c n)) = drop n (remaining c)"
    and "closing (snd (ReadFull c n)) = closing c"
  using assms ReadFull_loop_spec [of "[]" n c]
  by (cases "ReadFull_loop c n []"; auto simp: ReadFull_def Let_def)+

lemma ReadFull_short:
  assumes "length (remaining c) < n"
  shows "fst (ReadFull c n) =
           (remaining c @ replicate (n - length (remaining c)) 0,
            Some (if remaining c \<noteq> [] \<and> closing c = EOF then ErrUnexpectedEOF else closing c))"
    and "remaining (snd (ReadFull c n)) = []"
    and "closing (snd (ReadFull c n)) = closing c"
  using assms ReadFull_loop_spec [of "[]" n c]
  by (cases "ReadFull_loop c n []"; auto simp: ReadFull_def Let_def)+

subsection \<open>The signature check\<close>

lemma checkSignature_loop_spec:
  "length sig = length ppv2Signature \<Longrightarrow> i \<le> length ppv2Signature \<Longrightarrow>
   checkSignature_loop sig i = Inr (drop i sig = drop i ppv2Signature)"
proof (induction sig i rule: checkSignature_loop.induct)
  case (1 sig i)
  show ?case
  proof (cases "i < length ppv2Signature")
    case False
    with "1.prems" show ?thesis by (subst checkSignature_loop.simps) simp
  next
    case True
    with "1.prems" have d: "drop i sig = sig ! i # drop (Suc i) sig"
      "drop i ppv2Signature = ppv2Signature ! i # drop (Suc i) ppv2Signature"
      by (simp_all add: Cons_nth_drop_Suc)
    show ?thesis
    proof (cases "sig ! i = ppv2Signature ! i")
      case False
      with True "1.prems" d show ?thesis
        by (subst checkSignature_loop.simps) (simp add: index_def)
    next
      case eq: True
      have "checkSignature_loop sig i = checkSignature_loop sig (Suc i)"
        using True "1.prems" eq by (subst checkSignature_loop.simps) (simp add: index_def)
      also have "\<dots> = Inr (drop (Suc i) sig = drop (Suc i) ppv2Signature)"
        using "1.IH" [of "sig ! i" "ppv2Signature ! i"] True "1.prems" eq by (simp add: index_def)
      finally show ?thesis using d eq by simp
    qed
  qed
qed

lemma checkSignature_spec: "checkSignature sig = Inr (sig = ppv2Signature)"
  using checkSignature_loop_spec [of sig 0]
  by (auto simp: checkSignature_def)

subsection \<open>Big-endian values\<close>

lemma unat_byte_lt: "unat (b :: byte) < 256"
  using unsigned_less [of b, where ?'a = nat] by simp

lemma unat_ucast_byte: "unat (ucast b :: 16 word) = unat b" for b :: byte
  using unat_byte_lt [of b] by (simp add: unsigned_ucast_eq take_bit_nat_eq_self)

lemma be16:
  fixes b0 b1 :: byte
  shows "unat (ucast b1 OR push_bit 8 (ucast b0) :: 16 word) = unat b0 * 256 + unat b1"
proof -
  have c: "(ucast b1 OR push_bit 8 (ucast b0) :: 16 word) = push_bit 8 (ucast b0) + ucast b1"
    using word_cat_eq [of b0 b1, where ?'c = 16] word_cat_eq_push_bit_or [of b0 b1, where ?'c = 16]
    by (simp add: or.commute)
  have p: "unat (push_bit 8 (ucast b0 :: 16 word)) = unat b0 * 256"
    using unat_byte_lt [of b0]
    by (simp add: push_bit_eq_mult unat_word_ariths unat_ucast_byte)
  show ?thesis
    unfolding c using unat_byte_lt [of b0] unat_byte_lt [of b1]
    by (simp add: unat_word_ariths p unat_ucast_byte)
qed
subsection \<open>The steps of the handler\<close>

lemma Uint16_pair: "Uint16 [b0, b1] = Inr (ucast b1 OR push_bit 8 (ucast b0))"
  by (simp add: Uint16_def index_def)

lemma take2_drop:
  "Suc (Suc i) \<le> length xs \<Longrightarrow> take 2 (drop i xs) = [xs ! i, xs ! Suc i]"
proof -
  assume a: "Suc (Suc i) \<le> length xs"
  then have "drop i xs = xs ! i # drop (Suc i) xs"
    and "drop (Suc i) xs = xs ! Suc i # drop (Suc (Suc i)) xs"
    by (simp_all add: Cons_nth_drop_Suc)
  then show ?thesis by (simp add: numeral_2_eq_2)
qed

lemma handle_header_spec:
  assumes "length h = 16"
  shows "handle_header h =
     (if take 12 h \<noteq> ppv2Signature then Return NoValidSignature
      else if drop_bit 4 (h ! 12) \<noteq> 2 then Return (UnsupportedVersion (drop_bit 4 (h ! 12)))
      else if h ! 12 AND 0x0F \<noteq> 1 then Return (CommandNotPROXY (h ! 12 AND 0x0F))
      else Next (h ! 13, ucast (h ! 15) OR push_bit 8 (ucast (h ! 14))))"
proof -
  have t: "take 2 (drop 14 h) = [h ! 14, h ! 15]"
    using take2_drop [of 14 h] assms by simp
  show ?thesis
    using assms
    by (simp add: handle_header_def slice_of_def index_def checkSignature_spec Let_def t
        Uint16_pair)
qed

lemma handle_addrBlock_IPv4:
  assumes "drop_bit 4 famProto = 1" and "12 \<le> length b"
  shows "handle_addrBlock famProto b =
     Next \<lparr>srcIP = IPv4 (b ! 0) (b ! 1) (b ! 2) (b ! 3),
           dstIP = IPv4 (b ! 4) (b ! 5) (b ! 6) (b ! 7),
           srcPort = ucast (b ! 9) OR push_bit 8 (ucast (b ! 8)),
           dstPort = ucast (b ! 11) OR push_bit 8 (ucast (b ! 10))\<rparr>"
proof -
  have t: "take 2 (drop 8 b) = [b ! 8, b ! 9]" "take 2 (drop 10 b) = [b ! 10, b ! 11]"
    using take2_drop [of 8 b] take2_drop [of 10 b] assms by simp_all
  from assms have "b \<noteq> []" by auto
  then show ?thesis
    using assms
    by (simp add: handle_addrBlock_def slice_of_def index_def Let_def t Uint16_pair)
qed

lemma handle_addrBlock_IPv6:
  assumes "drop_bit 4 famProto = 2" and "36 \<le> length b"
  shows "handle_addrBlock famProto b =
     Next \<lparr>srcIP = take 16 b, dstIP = take 16 (drop 16 b),
           srcPort = ucast (b ! 33) OR push_bit 8 (ucast (b ! 32)),
           dstPort = ucast (b ! 35) OR push_bit 8 (ucast (b ! 34))\<rparr>"
proof -
  have t: "take 2 (drop 32 b) = [b ! 32, b ! 33]" "take 2 (drop 34 b) = [b ! 34, b ! 35]"
    using take2_drop [of 32 b] take2_drop [of 34 b] assms by simp_all
  show ?thesis
    using assms
    by (simp add: handle_addrBlock_def slice_of_def index_def Let_def t Uint16_pair)
qed

lemma handle_addrBlock_short_IPv4:
  "drop_bit 4 famProto = 1 \<Longrightarrow> length b < 12 \<Longrightarrow>
   handle_addrBlock famProto b = Return NotEnoughDataIPv4"
  by (simp add: handle_addrBlock_def)

lemma handle_addrBlock_short_IPv6:
  "drop_bit 4 famProto = 2 \<Longrightarrow> length b < 36 \<Longrightarrow>
   handle_addrBlock famProto b = Return NotEnoughDataIPv6"
  by (simp add: handle_addrBlock_def)

lemma handle_addrBlock_other:
  "drop_bit 4 famProto \<noteq> 1 \<Longrightarrow> drop_bit 4 famProto \<noteq> 2 \<Longrightarrow>
   handle_addrBlock famProto b = Return (UnrecognizedAddressFamily (drop_bit 4 famProto))"
  by (simp add: handle_addrBlock_def)

lemma handle_short_header:
  assumes "length (remaining raw) < 16"
  shows "fst (handle raw) =
           Return (ErrorReadingInitialHeader
             (if remaining raw \<noteq> [] \<and> closing raw = EOF then ErrUnexpectedEOF
              else closing raw))"
    and "remaining (snd (handle raw)) = []"
  using ReadFull_short [OF assms]
  by (cases "ReadFull raw 16"; auto simp: handle_def)+

lemma handle_rejected_header:
  assumes "16 \<le> length (remaining raw)"
    and "handle_header (take 16 (remaining raw)) = Return l"
  shows "fst (handle raw) = Return l"
    and "remaining (snd (handle raw)) = drop 16 (remaining raw)"
  using ReadFull_enough [OF assms(1)] assms(2)
  by (cases "ReadFull raw 16"; auto simp: handle_def)+

lemma handle_short_addrBlock:
  assumes "16 \<le> length (remaining raw)"
    and "handle_header (take 16 (remaining raw)) = Next (famProto, addrLen)"
    and "length (remaining raw) < 16 + unat addrLen"
  shows "fst (handle raw) =
           Return (ErrorReadingAddressBlock
             (if drop 16 (remaining raw) \<noteq> [] \<and> closing raw = EOF then ErrUnexpectedEOF
              else closing raw))"
    and "remaining (snd (handle raw)) = []"
proof -
  obtain raw1 where r1: "ReadFull raw 16 = ((take 16 (remaining raw), None), raw1)"
    and m1: "remaining raw1 = drop 16 (remaining raw)" and c1: "closing raw1 = closing raw"
    using ReadFull_enough [OF assms(1)] by (cases "ReadFull raw 16") auto
  from assms(1,3) m1 have s: "length (remaining raw1) < unat addrLen" by simp
  show "fst (handle raw) =
           Return (ErrorReadingAddressBlock
             (if drop 16 (remaining raw) \<noteq> [] \<and> closing raw = EOF then ErrUnexpectedEOF
              else closing raw))"
    using ReadFull_short(1) [OF s] r1 assms(2) m1 c1
    by (cases "ReadFull raw1 (unat addrLen)") (auto simp: handle_def)
  show "remaining (snd (handle raw)) = []"
    using ReadFull_short(2) [OF s] ReadFull_short(1) [OF s] r1 assms(2)
    by (cases "ReadFull raw1 (unat addrLen)") (auto simp: handle_def)
qed

lemma handle_full_addrBlock:
  assumes "16 \<le> length (remaining raw)"
    and "handle_header (take 16 (remaining raw)) = Next (famProto, addrLen)"
    and "16 + unat addrLen \<le> length (remaining raw)"
  shows "fst (handle raw) =
           handle_addrBlock famProto (take (unat addrLen) (drop 16 (remaining raw)))"
    and "remaining (snd (handle raw)) = drop (16 + unat addrLen) (remaining raw)"
proof -
  obtain raw1 where r1: "ReadFull raw 16 = ((take 16 (remaining raw), None), raw1)"
    and m1: "remaining raw1 = drop 16 (remaining raw)" and c1: "closing raw1 = closing raw"
    using ReadFull_enough [OF assms(1)] by (cases "ReadFull raw 16") auto
  from assms(3) m1 have s: "unat addrLen \<le> length (remaining raw1)" by simp
  show "fst (handle raw) =
           handle_addrBlock famProto (take (unat addrLen) (drop 16 (remaining raw)))"
    using ReadFull_enough(1) [OF s] r1 assms(2) m1
    by (cases "ReadFull raw1 (unat addrLen)") (auto simp: handle_def)
  show "remaining (snd (handle raw)) = drop (16 + unat addrLen) (remaining raw)"
    using ReadFull_enough(2) [OF s] ReadFull_enough(1) [OF s] r1 assms(2) m1
    by (cases "ReadFull raw1 (unat addrLen)") (auto simp: handle_def add.commute)
qed

lemma To4_IPv4: "To4 (IPv4 a b c d) = [a, b, c, d]"
  by (simp add: To4_def IPv4_def v4InV6Prefix_def)

lemma take4:
  "4 \<le> length xs \<Longrightarrow> take 4 xs = [xs ! 0, xs ! 1, xs ! 2, xs ! 3]"
proof -
  assume "4 \<le> length xs"
  then have "take 2 xs = [xs ! 0, xs ! 1]" and "take 2 (drop 2 xs) = [xs ! 2, xs ! 3]"
    using take2_drop [of 0 xs] take2_drop [of 2 xs] by simp_all
  moreover have "take (2 + 2) xs = take 2 xs @ take 2 (drop 2 xs)"
    by (rule take_add)
  ultimately show ?thesis by simp
qed

lemma handle_valid_header:
  assumes "remaining raw = ppv2Signature @ [verCmd, famProto, hi, lo] @ rest"
    and "drop_bit 4 verCmd = 2" and "verCmd AND 0x0F = 1"
  shows "handle_header (take 16 (remaining raw)) =
           Next (famProto, ucast lo OR push_bit 8 (ucast hi))"
    and "16 \<le> length (remaining raw)"
    and "drop 16 (remaining raw) = rest"
proof -
  have t: "take 16 (remaining raw) = ppv2Signature @ [verCmd, famProto, hi, lo]"
    using assms(1) by (simp add: ppv2Signature_def)
  have "length (take 16 (remaining raw)) = 16"
    using assms(1) by (simp add: ppv2Signature_def)
  from handle_header_spec [OF this] assms(2,3)
  show "handle_header (take 16 (remaining raw)) =
           Next (famProto, ucast lo OR push_bit 8 (ucast hi))"
    unfolding t by (simp add: ppv2Signature_def)
  show "16 \<le> length (remaining raw)" "drop 16 (remaining raw) = rest"
    using assms(1) by (simp_all add: ppv2Signature_def)
qed

lemma handle_delivered:
  assumes "remaining raw = ppv2Signature @ [verCmd, famProto, hi, lo] @ b @ rest"
    and "drop_bit 4 verCmd = 2" and "verCmd AND 0x0F = 1"
    and "length b = unat hi * 256 + unat lo"
  shows "fst (handle raw) = handle_addrBlock famProto b"
    and "remaining (snd (handle raw)) = rest"
proof -
  note h = handle_valid_header [OF assms(1-3)]
  have l: "unat (ucast lo OR push_bit 8 (ucast hi) :: 16 word) = length b"
    using assms(4) by (simp add: be16)
  then have "16 + unat (ucast lo OR push_bit 8 (ucast hi) :: 16 word) \<le> length (remaining raw)"
    using assms(1) by (simp add: ppv2Signature_def)
  note f = handle_full_addrBlock [OF h(2) h(1) this]
  have "drop (16 + length b) (remaining raw) = drop (length b) (drop 16 (remaining raw))"
    by (simp add: add.commute)
  with f(2) show "remaining (snd (handle raw)) = rest"
    unfolding h(3) l by simp
  from f(1) show "fst (handle raw) = handle_addrBlock famProto b"
    unfolding h(3) l by simp
qed

text \<open>The four ways the handler can go, by what the stream delivers.\<close>

lemma handle_outcome:
  obtains (short_header) "length (remaining raw) < 16"
      "fst (handle raw) =
         Return (ErrorReadingInitialHeader
           (if remaining raw \<noteq> [] \<and> closing raw = EOF then ErrUnexpectedEOF else closing raw))"
      "remaining (snd (handle raw)) = []"
  | (rejected) l where "16 \<le> length (remaining raw)"
      "handle_header (take 16 (remaining raw)) = Return l"
      "fst (handle raw) = Return l" "remaining (snd (handle raw)) = drop 16 (remaining raw)"
  | (short_block) famProto addrLen where "16 \<le> length (remaining raw)"
      "handle_header (take 16 (remaining raw)) = Next (famProto, addrLen)"
      "length (remaining raw) < 16 + unat addrLen"
      "fst (handle raw) =
         Return (ErrorReadingAddressBlock
           (if drop 16 (remaining raw) \<noteq> [] \<and> closing raw = EOF then ErrUnexpectedEOF
            else closing raw))"
      "remaining (snd (handle raw)) = []"
  | (full_block) famProto addrLen where "16 \<le> length (remaining raw)"
      "handle_header (take 16 (remaining raw)) = Next (famProto, addrLen)"
      "16 + unat addrLen \<le> length (remaining raw)"
      "fst (handle raw) =
         handle_addrBlock famProto (take (unat addrLen) (drop 16 (remaining raw)))"
      "remaining (snd (handle raw)) = drop (16 + unat addrLen) (remaining raw)"
proof (cases "length (remaining raw) < 16")
  case True
  with handle_short_header [OF True] short_header show ?thesis by blast
next
  case False
  then have g: "16 \<le> length (remaining raw)" by simp
  then have len: "length (take 16 (remaining raw)) = 16" by simp
  show ?thesis
  proof (cases "handle_header (take 16 (remaining raw))")
    case (Return l)
    with handle_rejected_header [OF g Return] rejected g show ?thesis by blast
  next
    case (Panic p)
    with handle_header_spec [OF len] show ?thesis by (simp split: if_splits)
  next
    case (Next v)
    obtain famProto addrLen where v: "v = (famProto, addrLen)" by (cases v)
    note n = Next [unfolded v]
    show ?thesis
    proof (cases "length (remaining raw) < 16 + unat addrLen")
      case True
      with handle_short_addrBlock [OF g n True] short_block g n show ?thesis by blast
    next
      case False
      then have f: "16 + unat addrLen \<le> length (remaining raw)" by simp
      with handle_full_addrBlock [OF g n f] full_block g n show ?thesis by blast
    qed
  qed
qed

text \<open>Flipping one bit of a byte changes the byte.\<close>

lemma flip_bit_neq: "j < 8 \<Longrightarrow> (x :: byte) XOR push_bit j 1 \<noteq> x"
proof
  assume j: "j < 8" and "x XOR push_bit j 1 = x"
  then have "bit (x XOR push_bit j 1) j = bit x j" by simp
  with j show False by (auto simp: bit_xor_iff bit_push_bit_iff bit_exp_iff possible_bit_word)
qed

text \<open>No stream makes the handler index or slice out of range.\<close>

lemma handle_addrBlock_never_panics: "handle_addrBlock famProto b \<noteq> Panic p"
proof (cases "drop_bit 4 famProto = 1")
  case True
  then show ?thesis
    by (cases "length b < 12") (simp_all add: handle_addrBlock_short_IPv4 handle_addrBlock_IPv4)
next
  case f1: False
  show ?thesis
  proof (cases "drop_bit 4 famProto = 2")
    case True
    then show ?thesis
      by (cases "length b < 36") (simp_all add: handle_addrBlock_short_IPv6 handle_addrBlock_IPv6)
  next
    case False
    with f1 show ?thesis by (simp add: handle_addrBlock_other)
  qed
qed

lemma handle_never_panics: "fst (handle raw) \<noteq> Panic p"
  by (cases rule: handle_outcome [of raw]) (simp_all add: handle_addrBlock_never_panics)

section \<open>The claims of the specification\<close>

text \<open>
  In the statements below a stream is the list \<open>remaining raw\<close> of the bytes the
  connection delivers, in whatever pieces; a header with version 2 and command PROXY
  is a byte \<open>verCmd\<close> with \<open>drop_bit 4 verCmd = 2\<close> and \<open>verCmd AND 0x0F = 1\<close>; the
  family is \<open>drop_bit 4 famProto\<close>. The spec's error kinds are the handler's log lines:
  IncompleteHeader and Timeout are \<open>ErrorReadingInitialHeader\<close> with the error of the
  read, SignatureMismatch is \<open>NoValidSignature\<close>, IncompleteAddressBlock is
  \<open>ErrorReadingAddressBlock\<close>, TruncatedAddressBlock is \<open>NotEnoughDataIPv4\<close> or
  \<open>NotEnoughDataIPv6\<close>, and UnknownAddressFamily is \<open>UnrecognizedAddressFamily\<close>.
\<close>

text \<open>
  Claim C1. After a header with valid signature, version 2, command PROXY, family IPv4
  and address length 12, an address block \<open>b\<close> of 12 bytes is decoded into the source
  address \<open>b[0..3]\<close>, the destination address \<open>b[4..7]\<close> and the big-endian ports
  \<open>b[8..9]\<close> and \<open>b[10..11]\<close>; after a header with family IPv6 and address length
  36, a block of 36 bytes is decoded into \<open>b[0..15]\<close>, \<open>b[16..31]\<close> and the
  big-endian ports \<open>b[32..33]\<close> and \<open>b[34..35]\<close>. The handler keeps an IPv4 address
  as \<^verbatim>\<open>net.IPv4\<close> makes it, in 16 bytes; \<open>To4\<close> gives its four octets.
\<close>

theorem handle_decodes_address_block:
  "(remaining raw = ppv2Signature @ [verCmd, famProto, 0, 12] @ b @ rest \<and>
    drop_bit 4 verCmd = 2 \<and> verCmd AND 0x0F = 1 \<and> drop_bit 4 famProto = 1 \<and> length b = 12
    \<longrightarrow> (case fst (handle raw) of
           Next e \<Rightarrow>
             To4 (srcIP e) = take 4 b \<and> To4 (dstIP e) = take 4 (drop 4 b) \<and>
             unat (srcPort e) = unat (b ! 8) * 256 + unat (b ! 9) \<and>
             unat (dstPort e) = unat (b ! 10) * 256 + unat (b ! 11)
         | _ \<Rightarrow> False)) \<and>
   (remaining raw = ppv2Signature @ [verCmd, famProto, 0, 36] @ b @ rest \<and>
    drop_bit 4 verCmd = 2 \<and> verCmd AND 0x0F = 1 \<and> drop_bit 4 famProto = 2 \<and> length b = 36
    \<longrightarrow> (case fst (handle raw) of
           Next e \<Rightarrow>
             srcIP e = take 16 b \<and> dstIP e = take 16 (drop 16 b) \<and>
             unat (srcPort e) = unat (b ! 32) * 256 + unat (b ! 33) \<and>
             unat (dstPort e) = unat (b ! 34) * 256 + unat (b ! 35)
         | _ \<Rightarrow> False))"
proof (intro conjI impI)
  assume a: "remaining raw = ppv2Signature @ [verCmd, famProto, 0, 12] @ b @ rest \<and>
    drop_bit 4 verCmd = 2 \<and> verCmd AND 0x0F = 1 \<and> drop_bit 4 famProto = 1 \<and> length b = 12"
  then have "fst (handle raw) = handle_addrBlock famProto b"
    by (intro handle_delivered(1) [of raw verCmd famProto 0 12 b rest]) simp_all
  moreover have "take 4 (drop 4 b) = [b ! 4, b ! 5, b ! 6, b ! 7]"
    using a take4 [of "drop 4 b"] by simp
  ultimately show "case fst (handle raw) of
           Next e \<Rightarrow>
             To4 (srcIP e) = take 4 b \<and> To4 (dstIP e) = take 4 (drop 4 b) \<and>
             unat (srcPort e) = unat (b ! 8) * 256 + unat (b ! 9) \<and>
             unat (dstPort e) = unat (b ! 10) * 256 + unat (b ! 11)
         | _ \<Rightarrow> False"
    using a take4 [of b] by (simp add: handle_addrBlock_IPv4 To4_IPv4 be16)
next
  assume a: "remaining raw = ppv2Signature @ [verCmd, famProto, 0, 36] @ b @ rest \<and>
    drop_bit 4 verCmd = 2 \<and> verCmd AND 0x0F = 1 \<and> drop_bit 4 famProto = 2 \<and> length b = 36"
  then have "fst (handle raw) = handle_addrBlock famProto b"
    by (intro handle_delivered(1) [of raw verCmd famProto 0 36 b rest]) simp_all
  then show "case fst (handle raw) of
           Next e \<Rightarrow>
             srcIP e = take 16 b \<and> dstIP e = take 16 (drop 16 b) \<and>
             unat (srcPort e) = unat (b ! 32) * 256 + unat (b ! 33) \<and>
             unat (dstPort e) = unat (b ! 34) * 256 + unat (b ! 35)
         | _ \<Rightarrow> False"
    using a by (simp add: handle_addrBlock_IPv6 be16)
qed

theorem handle_decodes_address_block_witness:
  "(remaining \<lparr>segments = [[0x0D, 0x0A, 0x0D, 0x0A, 0x00, 0x0D, 0x0A, 0x51, 0x52, 0x4F, 0x54,
       0x0A, 0x21, 0x11], [0, 12, 192, 168, 0, 1], [10, 0, 0, 2, 0xC0, 0x01, 0x01, 0xBB, 0x47,
       0x45]], closing = EOF\<rparr> =
     ppv2Signature @ [0x21, 0x11, 0, 12] @
       [192, 168, 0, 1, 10, 0, 0, 2, 0xC0, 0x01, 0x01, 0xBB] @ [0x47, 0x45] \<and>
    drop_bit 4 (0x21 :: byte) = 2 \<and> (0x21 :: byte) AND 0x0F = 1 \<and>
    drop_bit 4 (0x11 :: byte) = 1 \<and>
    (case fst (handle \<lparr>segments = [[0x0D, 0x0A, 0x0D, 0x0A, 0x00, 0x0D, 0x0A, 0x51, 0x52, 0x4F,
       0x54, 0x0A, 0x21, 0x11], [0, 12, 192, 168, 0, 1], [10, 0, 0, 2, 0xC0, 0x01, 0x01, 0xBB,
       0x47, 0x45]], closing = EOF\<rparr>) of
       Next e \<Rightarrow>
         To4 (srcIP e) = [192, 168, 0, 1] \<and> To4 (dstIP e) = [10, 0, 0, 2] \<and>
         unat (srcPort e) = 49153 \<and> unat (dstPort e) = 443
     | _ \<Rightarrow> False)) \<and>
   (remaining \<lparr>segments = [[0x0D, 0x0A, 0x0D, 0x0A, 0x00, 0x0D, 0x0A, 0x51, 0x52, 0x4F, 0x54,
       0x0A, 0x21, 0x21, 0, 36], [0x20, 0x01, 0x0D, 0xB8, 0, 0, 0, 0, 0, 0, 0, 0, 0, 0, 0, 1,
       0x20, 0x01, 0x0D, 0xB8, 0, 0, 0, 0, 0, 0, 0, 0, 0, 0, 0, 2, 0x1F, 0x90, 0x00, 0x50]],
       closing = EOF\<rparr> =
     ppv2Signature @ [0x21, 0x21, 0, 36] @
       [0x20, 0x01, 0x0D, 0xB8, 0, 0, 0, 0, 0, 0, 0, 0, 0, 0, 0, 1,
        0x20, 0x01, 0x0D, 0xB8, 0, 0, 0, 0, 0, 0, 0, 0, 0, 0, 0, 2, 0x1F, 0x90, 0x00, 0x50] @ [] \<and>
    drop_bit 4 (0x21 :: byte) = 2 \<and>
    (case fst (handle \<lparr>segments = [[0x0D, 0x0A, 0x0D, 0x0A, 0x00, 0x0D, 0x0A, 0x51, 0x52, 0x4F,
       0x54, 0x0A, 0x21, 0x21, 0, 36], [0x20, 0x01, 0x0D, 0xB8, 0, 0, 0, 0, 0, 0, 0, 0, 0, 0, 0, 1,
       0x20, 0x01, 0x0D, 0xB8, 0, 0, 0, 0, 0, 0, 0, 0, 0, 0, 0, 2, 0x1F, 0x90, 0x00, 0x50]],
       closing = EOF\<rparr>) of
       Next e \<Rightarrow>
         srcIP e = [0x20, 0x01, 0x0D, 0xB8, 0, 0, 0, 0, 0, 0, 0, 0, 0, 0, 0, 1] \<and>
         dstIP e = [0x20, 0x01, 0x0D, 0xB8, 0, 0, 0, 0, 0, 0, 0, 0, 0, 0, 0, 2] \<and>
         unat (srcPort e) = 8080 \<and> unat (dstPort e) = 80
     | _ \<Rightarrow> False))"
  using
    handle_decodes_address_block [of "\<lparr>segments = [[0x0D, 0x0A, 0x0D, 0x0A, 0x00, 0x0D, 0x0A,
       0x51, 0x52, 0x4F, 0x54, 0x0A, 0x21, 0x11], [0, 12, 192, 168, 0, 1], [10, 0, 0, 2, 0xC0,
       0x01, 0x01, 0xBB, 0x47, 0x45]], closing = EOF\<rparr>" "0x21" "0x11"
       "[192, 168, 0, 1, 10, 0, 0, 2, 0xC0, 0x01, 0x01, 0xBB]" "[0x47, 0x45]"]
    handle_decodes_address_block [of "\<lparr>segments = [[0x0D, 0x0A, 0x0D, 0x0A, 0x00, 0x0D, 0x0A,
       0x51, 0x52, 0x4F, 0x54, 0x0A, 0x21, 0x21, 0, 36], [0x20, 0x01, 0x0D, 0xB8, 0, 0, 0, 0, 0,
       0, 0, 0, 0, 0, 0, 1, 0x20, 0x01, 0x0D, 0xB8, 0, 0, 0, 0, 0, 0, 0, 0, 0, 0, 0, 2, 0x1F,
       0x90, 0x00, 0x50]], closing = EOF\<rparr>" "0x21" "0x21"
       "[0x20, 0x01, 0x0D, 0xB8, 0, 0, 0, 0, 0, 0, 0, 0, 0, 0, 0, 1,
        0x20, 0x01, 0x0D, 0xB8, 0, 0, 0, 0, 0, 0, 0, 0, 0, 0, 0, 2, 0x1F, 0x90, 0x00, 0x50]" "[]"]
  by (simp add: remaining_def ppv2Signature_def split: flow.splits)

text \<open>
  Claim C2. The 28-byte stream made of the signature, 21, 11, 000C, 7B7B7B7B, 08080808,
  1F90 and 0050, in whatever pieces it arrives, is decoded with success: the source is
  123.123.123.123 port 8080 and the destination is 8.8.8.8 port 80, and the whole stream
  has been read.
\<close>

theorem handle_example_stream:
  "remaining raw =
     [0x0D, 0x0A, 0x0D, 0x0A, 0x00, 0x0D, 0x0A, 0x51, 0x52, 0x4F, 0x54, 0x0A, 0x21, 0x11,
      0x00, 0x0C, 0x7B, 0x7B, 0x7B, 0x7B, 0x08, 0x08, 0x08, 0x08, 0x1F, 0x90, 0x00, 0x50]
   \<Longrightarrow>
   fst (handle raw) =
     Next \<lparr>srcIP = IPv4 123 123 123 123, dstIP = IPv4 8 8 8 8, srcPort = 8080, dstPort = 80\<rparr> \<and>
   To4 (IPv4 123 123 123 123) = [123, 123, 123, 123] \<and> To4 (IPv4 8 8 8 8) = [8, 8, 8, 8] \<and>
   remaining (snd (handle raw)) = []"
proof -
  assume "remaining raw =
     [0x0D, 0x0A, 0x0D, 0x0A, 0x00, 0x0D, 0x0A, 0x51, 0x52, 0x4F, 0x54, 0x0A, 0x21, 0x11,
      0x00, 0x0C, 0x7B, 0x7B, 0x7B, 0x7B, 0x08, 0x08, 0x08, 0x08, 0x1F, 0x90, 0x00, 0x50]"
  then have r: "remaining raw = ppv2Signature @ [0x21, 0x11, 0x00, 0x0C] @
      [0x7B, 0x7B, 0x7B, 0x7B, 0x08, 0x08, 0x08, 0x08, 0x1F, 0x90, 0x00, 0x50] @ []"
    by (simp add: ppv2Signature_def)
  have "fst (handle raw) =
      handle_addrBlock 0x11 [0x7B, 0x7B, 0x7B, 0x7B, 0x08, 0x08, 0x08, 0x08, 0x1F, 0x90, 0x00, 0x50]"
    and "remaining (snd (handle raw)) = []"
    using handle_delivered [OF r] by simp_all
  then show ?thesis
    by (simp add: handle_addrBlock_IPv4 To4_IPv4)
qed

theorem handle_example_stream_witness:
  "remaining \<lparr>segments = [[0x0D, 0x0A, 0x0D, 0x0A, 0x00], [0x0D, 0x0A, 0x51, 0x52, 0x4F, 0x54,
      0x0A, 0x21, 0x11, 0x00, 0x0C, 0x7B, 0x7B], [0x7B, 0x7B, 0x08, 0x08, 0x08, 0x08, 0x1F, 0x90,
      0x00, 0x50]], closing = ErrDeadlineExceeded\<rparr> =
     [0x0D, 0x0A, 0x0D, 0x0A, 0x00, 0x0D, 0x0A, 0x51, 0x52, 0x4F, 0x54, 0x0A, 0x21, 0x11,
      0x00, 0x0C, 0x7B, 0x7B, 0x7B, 0x7B, 0x08, 0x08, 0x08, 0x08, 0x1F, 0x90, 0x00, 0x50] \<and>
   fst (handle \<lparr>segments = [[0x0D, 0x0A, 0x0D, 0x0A, 0x00], [0x0D, 0x0A, 0x51, 0x52, 0x4F, 0x54,
      0x0A, 0x21, 0x11, 0x00, 0x0C, 0x7B, 0x7B], [0x7B, 0x7B, 0x08, 0x08, 0x08, 0x08, 0x1F, 0x90,
      0x00, 0x50]], closing = ErrDeadlineExceeded\<rparr>) =
     Next \<lparr>srcIP = IPv4 123 123 123 123, dstIP = IPv4 8 8 8 8, srcPort = 8080, dstPort = 80\<rparr>"
  using handle_example_stream [of "\<lparr>segments = [[0x0D, 0x0A, 0x0D, 0x0A, 0x00], [0x0D, 0x0A,
      0x51, 0x52, 0x4F, 0x54, 0x0A, 0x21, 0x11, 0x00, 0x0C, 0x7B, 0x7B], [0x7B, 0x7B, 0x08, 0x08,
      0x08, 0x08, 0x1F, 0x90, 0x00, 0x50]], closing = ErrDeadlineExceeded\<rparr>"]
  by (simp add: remaining_def)

text \<open>
  Claim C3. \<^verbatim>\<open>checkSignature\<close> returns true exactly for the slice of length 12 that
  equals 0D 0A 0D 0A 00 0D 0A 51 52 4F 54 0A byte for byte; a slice of any other length
  gives false, and no input makes it panic.
\<close>

theorem checkSignature_iff:
  "checkSignature sig =
     Inr (length sig = 12 \<and>
          sig = [0x0D, 0x0A, 0x0D, 0x0A, 0x00, 0x0D, 0x0A, 0x51, 0x52, 0x4F, 0x54, 0x0A]) \<and>
   (length sig \<noteq> 12 \<longrightarrow> checkSignature sig = Inr False)"
  by (auto simp: checkSignature_spec ppv2Signature_def)

theorem checkSignature_iff_witness:
  "length [0x0D, 0x0A, 0x0D, 0x0A, 0x00, 0x0D, 0x0A, 0x51, 0x52, 0x4F, 0x54 :: byte] \<noteq> 12 \<and>
   checkSignature [0x0D, 0x0A, 0x0D, 0x0A, 0x00, 0x0D, 0x0A, 0x51, 0x52, 0x4F, 0x54] = Inr False"
  using checkSignature_iff [of "[0x0D, 0x0A, 0x0D, 0x0A, 0x00, 0x0D, 0x0A, 0x51, 0x52, 0x4F, 0x54]"]
  by simp

text \<open>
  Claim C4. The handler goes on with endpoints only for a stream whose header has the
  signature, version 2, command PROXY and family IPv4 or IPv6; so a family nibble other
  than 1 and 2 never gives endpoints, and once the header is accepted and the address
  block is fully read it is rejected as an unrecognized address family.
\<close>

theorem handle_endpoints_only_if_valid:
  "(fst (handle raw) = Next e \<longrightarrow>
      16 \<le> length (remaining raw) \<and> take 12 (remaining raw) = ppv2Signature \<and>
      drop_bit 4 (remaining raw ! 12) = 2 \<and> remaining raw ! 12 AND 0x0F = 1 \<and>
      drop_bit 4 (remaining raw ! 13) \<in> {1, 2}) \<and>
   (remaining raw = ppv2Signature @ [verCmd, famProto, hi, lo] @ b @ rest \<and>
    drop_bit 4 verCmd = 2 \<and> verCmd AND 0x0F = 1 \<and> length b = unat hi * 256 + unat lo \<and>
    drop_bit 4 famProto \<notin> {1, 2} \<longrightarrow>
      fst (handle raw) = Return (UnrecognizedAddressFamily (drop_bit 4 famProto)))"
proof (rule conjI; rule impI)
  assume n: "fst (handle raw) = Next e"
  show "16 \<le> length (remaining raw) \<and> take 12 (remaining raw) = ppv2Signature \<and>
      drop_bit 4 (remaining raw ! 12) = 2 \<and> remaining raw ! 12 AND 0x0F = 1 \<and>
      drop_bit 4 (remaining raw ! 13) \<in> {1, 2}"
  proof (cases rule: handle_outcome [of raw])
    case short_header
    with n show ?thesis by simp
  next
    case (rejected l)
    with n show ?thesis by simp
  next
    case (short_block fp al)
    with n show ?thesis by simp
  next
    case (full_block fp al)
    from full_block(1) have len: "length (take 16 (remaining raw)) = 16" by simp
    from full_block(2) handle_header_spec [OF len]
    have h: "take 12 (remaining raw) = ppv2Signature" "drop_bit 4 (remaining raw ! 12) = 2"
      "remaining raw ! 12 AND 0x0F = 1" "fp = remaining raw ! 13"
      by (simp_all add: min_def split: if_splits)
    have "drop_bit 4 fp = 1 \<or> drop_bit 4 fp = 2"
    proof (rule ccontr)
      assume "\<not> (drop_bit 4 fp = 1 \<or> drop_bit 4 fp = 2)"
      then have "handle_addrBlock fp (take (unat al) (drop 16 (remaining raw))) =
          Return (UnrecognizedAddressFamily (drop_bit 4 fp))"
        by (simp add: handle_addrBlock_other)
      with full_block(4) n show False by simp
    qed
    with h full_block(1) show ?thesis by auto
  qed
next
  assume a: "remaining raw = ppv2Signature @ [verCmd, famProto, hi, lo] @ b @ rest \<and>
    drop_bit 4 verCmd = 2 \<and> verCmd AND 0x0F = 1 \<and> length b = unat hi * 256 + unat lo \<and>
    drop_bit 4 famProto \<notin> {1, 2}"
  then have "fst (handle raw) = handle_addrBlock famProto b"
    by (intro handle_delivered(1) [of raw verCmd famProto hi lo b rest]) simp_all
  with a show "fst (handle raw) = Return (UnrecognizedAddressFamily (drop_bit 4 famProto))"
    by (simp add: handle_addrBlock_other)
qed

theorem handle_endpoints_only_if_valid_witness:
  "fst (handle \<lparr>segments = [[0x0D, 0x0A, 0x0D, 0x0A, 0x00, 0x0D, 0x0A, 0x51, 0x52, 0x4F, 0x54,
      0x0A], [0x21, 0x21, 0x00, 0x24], [0x20, 0x01, 0x0D, 0xB8, 0, 0, 0, 0, 0, 0, 0, 0, 0, 0, 0,
      1, 0x20, 0x01, 0x0D, 0xB8, 0, 0, 0, 0, 0, 0, 0, 0, 0, 0, 0, 2, 0x1F, 0x90, 0x00, 0x50]],
      closing = EOF\<rparr>) =
     Next \<lparr>srcIP = [0x20, 0x01, 0x0D, 0xB8, 0, 0, 0, 0, 0, 0, 0, 0, 0, 0, 0, 1],
           dstIP = [0x20, 0x01, 0x0D, 0xB8, 0, 0, 0, 0, 0, 0, 0, 0, 0, 0, 0, 2],
           srcPort = 8080, dstPort = 80\<rparr> \<and>
   drop_bit 4 (0x21 :: byte) = 2 \<and> (0x21 :: byte) AND 0x0F = 1 \<and>
   drop_bit 4 (0x21 :: byte) \<in> {1, 2} \<and>
   drop_bit 4 (0x31 :: byte) \<notin> {1 :: byte, 2} \<and>
   fst (handle \<lparr>segments = [[0x0D, 0x0A, 0x0D, 0x0A, 0x00, 0x0D, 0x0A, 0x51, 0x52, 0x4F, 0x54,
      0x0A, 0x21, 0x31, 0x00, 0x02, 0x07], [0x09, 0x47]], closing = EOF\<rparr>) =
     Return (UnrecognizedAddressFamily 3)"
proof -
  have n: "fst (handle \<lparr>segments = [[0x0D, 0x0A, 0x0D, 0x0A, 0x00, 0x0D, 0x0A, 0x51, 0x52, 0x4F,
      0x54, 0x0A], [0x21, 0x21, 0x00, 0x24], [0x20, 0x01, 0x0D, 0xB8, 0, 0, 0, 0, 0, 0, 0, 0, 0,
      0, 0, 1, 0x20, 0x01, 0x0D, 0xB8, 0, 0, 0, 0, 0, 0, 0, 0, 0, 0, 0, 2, 0x1F, 0x90, 0x00,
      0x50]], closing = EOF\<rparr>) =
     Next \<lparr>srcIP = [0x20, 0x01, 0x0D, 0xB8, 0, 0, 0, 0, 0, 0, 0, 0, 0, 0, 0, 1],
           dstIP = [0x20, 0x01, 0x0D, 0xB8, 0, 0, 0, 0, 0, 0, 0, 0, 0, 0, 0, 2],
           srcPort = 8080, dstPort = 80\<rparr>"
    by code_simp
  have f: "drop_bit 4 (0x31 :: byte) = 3"
    by simp
  show ?thesis
    using n f
      handle_endpoints_only_if_valid [of "\<lparr>segments = [[0x0D, 0x0A, 0x0D, 0x0A, 0x00, 0x0D,
        0x0A, 0x51, 0x52, 0x4F, 0x54, 0x0A], [0x21, 0x21, 0x00, 0x24], [0x20, 0x01, 0x0D, 0xB8, 0,
        0, 0, 0, 0, 0, 0, 0, 0, 0, 0, 1, 0x20, 0x01, 0x0D, 0xB8, 0, 0, 0, 0, 0, 0, 0, 0, 0, 0, 0,
        2, 0x1F, 0x90, 0x00, 0x50]], closing = EOF\<rparr>"
        "\<lparr>srcIP = [0x20, 0x01, 0x0D, 0xB8, 0, 0, 0, 0, 0, 0, 0, 0, 0, 0, 0, 1],
           dstIP = [0x20, 0x01, 0x0D, 0xB8, 0, 0, 0, 0, 0, 0, 0, 0, 0, 0, 0, 2],
           srcPort = 8080, dstPort = 80\<rparr>"]
      handle_endpoints_only_if_valid [of "\<lparr>segments = [[0x0D, 0x0A, 0x0D, 0x0A, 0x00, 0x0D,
        0x0A, 0x51, 0x52, 0x4F, 0x54, 0x0A, 0x21, 0x31, 0x00, 0x02, 0x07], [0x09, 0x47]],
        closing = EOF\<rparr>" _ "0x21" "0x31" "0x00" "0x02" "[0x07, 0x09]" "[0x47]"]
    by (simp add: remaining_def ppv2Signature_def)
qed

text \<open>
  The input that separates claim C5 from the handler: valid signature, version 2,
  command PROXY, family IPv4, declared address length 8, and a stream that ends after
  3 of these 8 bytes. The handler logs the failed read of the address block, not the
  short block.
\<close>

theorem handle_short_length_counterexample:
  "drop_bit 4 (0x21 :: byte) = 2 \<and> (0x21 :: byte) AND 0x0F = 1 \<and> drop_bit 4 (0x11 :: byte) = 1 \<and>
   fst (handle \<lparr>segments = [[0x0D, 0x0A, 0x0D, 0x0A, 0x00, 0x0D, 0x0A, 0x51, 0x52, 0x4F, 0x54,
      0x0A, 0x21, 0x11, 0x00, 0x08], [0x7B, 0x7B, 0x7B]], closing = EOF\<rparr>) =
     Return (ErrorReadingAddressBlock ErrUnexpectedEOF) \<and>
   fst (handle \<lparr>segments = [[0x0D, 0x0A, 0x0D, 0x0A, 0x00, 0x0D, 0x0A, 0x51, 0x52, 0x4F, 0x54,
      0x0A, 0x21, 0x11, 0x00, 0x08], [0x7B, 0x7B, 0x7B]], closing = EOF\<rparr>) \<noteq>
     Return NotEnoughDataIPv4"
proof -
  have "fst (handle \<lparr>segments = [[0x0D, 0x0A, 0x0D, 0x0A, 0x00, 0x0D, 0x0A, 0x51, 0x52, 0x4F,
      0x54, 0x0A, 0x21, 0x11, 0x00, 0x08], [0x7B, 0x7B, 0x7B]], closing = EOF\<rparr>) =
     Return (ErrorReadingAddressBlock ErrUnexpectedEOF)"
    by code_simp
  then show ?thesis by simp
qed

text \<open>
  Claim C5, as the handler has it. The claim says that a declared address length below
  the family's minimum is rejected as a truncated address block whatever the stream
  delivers. The handler reads the declared number of bytes first and looks at the
  length afterwards: a stream that ends before delivering them is rejected by the read,
  as the first theorem shows on a header that declares 8 bytes for IPv4 and is followed
  by 3. Amended: with valid signature, version 2, command PROXY and a declared address
  length below 12 for IPv4 or below 36 for IPv6, the handler never goes on with
  endpoints; it logs "not enough data" for the family when the stream delivers all the
  declared bytes, and the error of the read of the address block when it does not.
\<close>

theorem handle_short_length:
  "remaining raw = ppv2Signature @ [verCmd, famProto, hi, lo] @ rest \<and>
   drop_bit 4 verCmd = 2 \<and> verCmd AND 0x0F = 1 \<and>
   (drop_bit 4 famProto = 1 \<and> unat hi * 256 + unat lo < 12 \<or>
    drop_bit 4 famProto = 2 \<and> unat hi * 256 + unat lo < 36) \<Longrightarrow>
   fst (handle raw) =
     (if unat hi * 256 + unat lo \<le> length rest
      then Return (if drop_bit 4 famProto = 1 then NotEnoughDataIPv4 else NotEnoughDataIPv6)
      else Return (ErrorReadingAddressBlock
             (if rest \<noteq> [] \<and> closing raw = EOF then ErrUnexpectedEOF else closing raw)))"
proof -
  assume a: "remaining raw = ppv2Signature @ [verCmd, famProto, hi, lo] @ rest \<and>
   drop_bit 4 verCmd = 2 \<and> verCmd AND 0x0F = 1 \<and>
   (drop_bit 4 famProto = 1 \<and> unat hi * 256 + unat lo < 12 \<or>
    drop_bit 4 famProto = 2 \<and> unat hi * 256 + unat lo < 36)"
  let ?n = "unat hi * 256 + unat lo"
  show ?thesis
  proof (cases "?n \<le> length rest")
    case True
    from a have r: "remaining raw =
        ppv2Signature @ [verCmd, famProto, hi, lo] @ take ?n rest @ drop ?n rest"
      and v: "drop_bit 4 verCmd = 2" "verCmd AND 0x0F = 1" by simp_all
    from True have "length (take ?n rest) = ?n" by simp
    from handle_delivered(1) [OF r v this]
    have "fst (handle raw) = handle_addrBlock famProto (take ?n rest)" .
    with a True show ?thesis
      by (auto simp: handle_addrBlock_short_IPv4 handle_addrBlock_short_IPv6)
  next
    case False
    from a have r: "remaining raw = ppv2Signature @ [verCmd, famProto, hi, lo] @ rest"
      and v: "drop_bit 4 verCmd = 2" "verCmd AND 0x0F = 1" by simp_all
    note h = handle_valid_header [OF r v]
    have "length (remaining raw) < 16 + unat (ucast lo OR push_bit 8 (ucast hi) :: 16 word)"
      using False r by (simp add: be16 ppv2Signature_def)
    from handle_short_addrBlock(1) [OF h(2) h(1) this] False show ?thesis
      unfolding h(3) by simp
  qed
qed

theorem handle_short_length_witness:
  "remaining \<lparr>segments = [[0x0D, 0x0A, 0x0D, 0x0A, 0x00, 0x0D, 0x0A, 0x51, 0x52, 0x4F, 0x54,
      0x0A, 0x21, 0x11, 0x00, 0x08], [0x7B, 0x7B, 0x7B, 0x7B, 0x08, 0x08, 0x08, 0x08, 0x47]],
      closing = EOF\<rparr> =
     ppv2Signature @ [0x21, 0x11, 0x00, 0x08] @ [0x7B, 0x7B, 0x7B, 0x7B, 0x08, 0x08, 0x08, 0x08, 0x47] \<and>
   drop_bit 4 (0x21 :: byte) = 2 \<and> (0x21 :: byte) AND 0x0F = 1 \<and>
   drop_bit 4 (0x11 :: byte) = 1 \<and> unat (0x00 :: byte) * 256 + unat (0x08 :: byte) < 12 \<and>
   fst (handle \<lparr>segments = [[0x0D, 0x0A, 0x0D, 0x0A, 0x00, 0x0D, 0x0A, 0x51, 0x52, 0x4F, 0x54,
      0x0A, 0x21, 0x11, 0x00, 0x08], [0x7B, 0x7B, 0x7B, 0x7B, 0x08, 0x08, 0x08, 0x08, 0x47]],
      closing = EOF\<rparr>) = Return NotEnoughDataIPv4 \<and>
   fst (handle \<lparr>segments = [[0x0D, 0x0A, 0x0D, 0x0A, 0x00, 0x0D, 0x0A, 0x51, 0x52, 0x4F, 0x54,
      0x0A, 0x21, 0x21, 0x00, 0x02], [0x7B], [0x7C, 0x47]], closing = EOF\<rparr>) =
     Return NotEnoughDataIPv6 \<and>
   fst (handle \<lparr>segments = [[0x0D, 0x0A, 0x0D, 0x0A, 0x00, 0x0D, 0x0A, 0x51, 0x52, 0x4F, 0x54,
      0x0A, 0x21, 0x21, 0x00, 0x14], [0x7B]], closing = ErrDeadlineExceeded\<rparr>) =
     Return (ErrorReadingAddressBlock ErrDeadlineExceeded)"
  using
    handle_short_length [of "\<lparr>segments = [[0x0D, 0x0A, 0x0D, 0x0A, 0x00, 0x0D, 0x0A, 0x51,
      0x52, 0x4F, 0x54, 0x0A, 0x21, 0x11, 0x00, 0x08], [0x7B, 0x7B, 0x7B, 0x7B, 0x08, 0x08, 0x08,
      0x08, 0x47]], closing = EOF\<rparr>" "0x21" "0x11" "0x00" "0x08"
      "[0x7B, 0x7B, 0x7B, 0x7B, 0x08, 0x08, 0x08, 0x08, 0x47]"]
    handle_short_length [of "\<lparr>segments = [[0x0D, 0x0A, 0x0D, 0x0A, 0x00, 0x0D, 0x0A, 0x51,
      0x52, 0x4F, 0x54, 0x0A, 0x21, 0x21, 0x00, 0x02], [0x7B], [0x7C, 0x47]], closing = EOF\<rparr>"
      "0x21" "0x21" "0x00" "0x02" "[0x7B, 0x7C, 0x47]"]
    handle_short_length [of "\<lparr>segments = [[0x0D, 0x0A, 0x0D, 0x0A, 0x00, 0x0D, 0x0A, 0x51,
      0x52, 0x4F, 0x54, 0x0A, 0x21, 0x21, 0x00, 0x14], [0x7B]], closing = ErrDeadlineExceeded\<rparr>"
      "0x21" "0x21" "0x00" "0x14" "[0x7B]"]
  by (simp add: remaining_def ppv2Signature_def)

text \<open>
  Claim C6. When the stream delivers the 16 header bytes and the first 12 differ from
  the signature, the handler rejects the connection for its signature, whatever the
  other four header bytes and the bytes after them are; in particular when the first
  12 bytes are the signature with bit \<open>j\<close> of its byte \<open>i\<close> flipped.
\<close>

theorem handle_bad_signature:
  "16 \<le> length (remaining raw) \<Longrightarrow>
   (take 12 (remaining raw) \<noteq> ppv2Signature \<longrightarrow> fst (handle raw) = Return NoValidSignature) \<and>
   (\<forall>i<12. \<forall>j<8.
      take 12 (remaining raw) = ppv2Signature[i := ppv2Signature ! i XOR push_bit j 1] \<longrightarrow>
      fst (handle raw) = Return NoValidSignature)"
proof -
  assume g: "16 \<le> length (remaining raw)"
  then have len: "length (take 16 (remaining raw)) = 16" by simp
  have ne: "fst (handle raw) = Return NoValidSignature"
    if s: "take 12 (remaining raw) \<noteq> ppv2Signature"
  proof -
    from handle_header_spec [OF len] s
    have "handle_header (take 16 (remaining raw)) = Return NoValidSignature"
      by (simp add: min_def)
    from handle_rejected_header(1) [OF g this] show ?thesis .
  qed
  have "ppv2Signature[i := ppv2Signature ! i XOR push_bit j 1] \<noteq> ppv2Signature"
    if "i < 12" and "j < 8" for i j
  proof
    assume "ppv2Signature[i := ppv2Signature ! i XOR push_bit j 1] = ppv2Signature"
    then have "ppv2Signature[i := ppv2Signature ! i XOR push_bit j 1] ! i = ppv2Signature ! i"
      by simp
    moreover have "i < length ppv2Signature"
      using that(1) by (simp add: ppv2Signature_def)
    ultimately show False
      using flip_bit_neq [OF that(2), of "ppv2Signature ! i"] by simp
  qed
  with ne show ?thesis by auto
qed

theorem handle_bad_signature_witness:
  "16 \<le> length (remaining \<lparr>segments = [[0x0D, 0x0A, 0x0D, 0x0A, 0x00, 0x0D, 0x0A, 0x71, 0x52,
      0x4F, 0x54, 0x0A, 0x21, 0x11, 0x00, 0x0C], [0x7B, 0x7B, 0x7B, 0x7B, 0x08, 0x08, 0x08, 0x08,
      0x1F, 0x90, 0x00, 0x50]], closing = EOF\<rparr>) \<and>
   take 12 (remaining \<lparr>segments = [[0x0D, 0x0A, 0x0D, 0x0A, 0x00, 0x0D, 0x0A, 0x71, 0x52, 0x4F,
      0x54, 0x0A, 0x21, 0x11, 0x00, 0x0C], [0x7B, 0x7B, 0x7B, 0x7B, 0x08, 0x08, 0x08, 0x08, 0x1F,
      0x90, 0x00, 0x50]], closing = EOF\<rparr>) =
     ppv2Signature[7 := ppv2Signature ! 7 XOR push_bit 5 1] \<and>
   (7 :: nat) < 12 \<and> (5 :: nat) < 8 \<and>
   take 12 (remaining \<lparr>segments = [[0x0D, 0x0A, 0x0D, 0x0A, 0x00, 0x0D, 0x0A, 0x71, 0x52, 0x4F,
      0x54, 0x0A, 0x21, 0x11, 0x00, 0x0C], [0x7B, 0x7B, 0x7B, 0x7B, 0x08, 0x08, 0x08, 0x08, 0x1F,
      0x90, 0x00, 0x50]], closing = EOF\<rparr>) \<noteq> ppv2Signature \<and>
   fst (handle \<lparr>segments = [[0x0D, 0x0A, 0x0D, 0x0A, 0x00, 0x0D, 0x0A, 0x71, 0x52, 0x4F, 0x54,
      0x0A, 0x21, 0x11, 0x00, 0x0C], [0x7B, 0x7B, 0x7B, 0x7B, 0x08, 0x08, 0x08, 0x08, 0x1F, 0x90,
      0x00, 0x50]], closing = EOF\<rparr>) = Return NoValidSignature"
proof -
  have g: "16 \<le> length (remaining \<lparr>segments = [[0x0D, 0x0A, 0x0D, 0x0A, 0x00, 0x0D, 0x0A, 0x71,
      0x52, 0x4F, 0x54, 0x0A, 0x21, 0x11, 0x00, 0x0C], [0x7B, 0x7B, 0x7B, 0x7B, 0x08, 0x08, 0x08,
      0x08, 0x1F, 0x90, 0x00, 0x50]], closing = EOF\<rparr>)"
    by (simp add: remaining_def)
  have f: "take 12 (remaining \<lparr>segments = [[0x0D, 0x0A, 0x0D, 0x0A, 0x00, 0x0D, 0x0A, 0x71, 0x52,
      0x4F, 0x54, 0x0A, 0x21, 0x11, 0x00, 0x0C], [0x7B, 0x7B, 0x7B, 0x7B, 0x08, 0x08, 0x08, 0x08,
      0x1F, 0x90, 0x00, 0x50]], closing = EOF\<rparr>) =
     ppv2Signature[7 := ppv2Signature ! 7 XOR push_bit 5 1]"
    by (simp add: remaining_def ppv2Signature_def)
  from handle_bad_signature [OF g, THEN conjunct2, rule_format, of 7 5, OF _ _ f] g f
  show ?thesis
    by (simp add: ppv2Signature_def)
qed

text \<open>
  Claim C7. The read deadline is part of the connection: when it passes before the
  awaited bytes have arrived, the reads of the connection fail with the deadline error.
  The handler then logs that error, for the header and for the address block alike,
  and the line differs from the one it logs when the same bytes are followed by the end
  of the stream, which carries \<open>EOF\<close> or \<open>ErrUnexpectedEOF\<close>.
\<close>

theorem handle_timeout_distinct:
  "closing raw = ErrDeadlineExceeded \<and> closing raw' = EOF \<and> remaining raw' = remaining raw \<Longrightarrow>
   (length (remaining raw) < 16 \<longrightarrow>
      fst (handle raw) = Return (ErrorReadingInitialHeader ErrDeadlineExceeded) \<and>
      fst (handle raw') =
        Return (ErrorReadingInitialHeader (if remaining raw = [] then EOF else ErrUnexpectedEOF)) \<and>
      fst (handle raw) \<noteq> fst (handle raw')) \<and>
   (remaining raw = ppv2Signature @ [verCmd, famProto, hi, lo] @ rest \<and>
    drop_bit 4 verCmd = 2 \<and> verCmd AND 0x0F = 1 \<and> length rest < unat hi * 256 + unat lo \<longrightarrow>
      fst (handle raw) = Return (ErrorReadingAddressBlock ErrDeadlineExceeded) \<and>
      fst (handle raw') =
        Return (ErrorReadingAddressBlock (if rest = [] then EOF else ErrUnexpectedEOF)) \<and>
      fst (handle raw) \<noteq> fst (handle raw'))"
proof -
  assume a: "closing raw = ErrDeadlineExceeded \<and> closing raw' = EOF \<and>
    remaining raw' = remaining raw"
  show ?thesis
  proof (rule conjI; rule impI)
    assume s: "length (remaining raw) < 16"
    with a have s': "length (remaining raw') < 16" by simp
    from handle_short_header(1) [OF s] handle_short_header(1) [OF s'] a
    show "fst (handle raw) = Return (ErrorReadingInitialHeader ErrDeadlineExceeded) \<and>
      fst (handle raw') =
        Return (ErrorReadingInitialHeader (if remaining raw = [] then EOF else ErrUnexpectedEOF)) \<and>
      fst (handle raw) \<noteq> fst (handle raw')"
      by simp
  next
    assume b: "remaining raw = ppv2Signature @ [verCmd, famProto, hi, lo] @ rest \<and>
      drop_bit 4 verCmd = 2 \<and> verCmd AND 0x0F = 1 \<and> length rest < unat hi * 256 + unat lo"
    then have r: "remaining raw = ppv2Signature @ [verCmd, famProto, hi, lo] @ rest"
      and v: "drop_bit 4 verCmd = 2" "verCmd AND 0x0F = 1" by simp_all
    from r a have r': "remaining raw' = ppv2Signature @ [verCmd, famProto, hi, lo] @ rest"
      by simp
    note h = handle_valid_header [OF r v] and h' = handle_valid_header [OF r' v]
    have l: "length (remaining raw) < 16 + unat (ucast lo OR push_bit 8 (ucast hi) :: 16 word)"
      using b by (simp add: be16 ppv2Signature_def)
    with a have l': "length (remaining raw') < 16 + unat (ucast lo OR push_bit 8 (ucast hi) :: 16 word)"
      by simp
    from handle_short_addrBlock(1) [OF h(2) h(1) l] handle_short_addrBlock(1) [OF h'(2) h'(1) l'] a
    show "fst (handle raw) = Return (ErrorReadingAddressBlock ErrDeadlineExceeded) \<and>
      fst (handle raw') =
        Return (ErrorReadingAddressBlock (if rest = [] then EOF else ErrUnexpectedEOF)) \<and>
      fst (handle raw) \<noteq> fst (handle raw')"
      unfolding h(3) h'(3) by simp
  qed
qed

theorem handle_timeout_distinct_witness:
  "fst (handle \<lparr>segments = [[0x0D, 0x0A, 0x0D, 0x0A, 0x00, 0x0D, 0x0A], [0x51, 0x52, 0x4F]],
      closing = ErrDeadlineExceeded\<rparr>) = Return (ErrorReadingInitialHeader ErrDeadlineExceeded) \<and>
   fst (handle \<lparr>segments = [[0x0D, 0x0A, 0x0D, 0x0A, 0x00, 0x0D, 0x0A, 0x51, 0x52, 0x4F]],
      closing = EOF\<rparr>) = Return (ErrorReadingInitialHeader ErrUnexpectedEOF) \<and>
   fst (handle \<lparr>segments = [[0x0D, 0x0A, 0x0D, 0x0A, 0x00, 0x0D, 0x0A, 0x51, 0x52, 0x4F, 0x54,
      0x0A, 0x21, 0x11, 0x00, 0x0C, 0x7B, 0x7B], [0x7B]], closing = ErrDeadlineExceeded\<rparr>) =
     Return (ErrorReadingAddressBlock ErrDeadlineExceeded) \<and>
   fst (handle \<lparr>segments = [[0x0D, 0x0A, 0x0D, 0x0A, 0x00, 0x0D, 0x0A, 0x51, 0x52, 0x4F, 0x54,
      0x0A, 0x21, 0x11, 0x00, 0x0C], [0x7B, 0x7B, 0x7B]], closing = EOF\<rparr>) =
     Return (ErrorReadingAddressBlock ErrUnexpectedEOF)"
  using
    handle_timeout_distinct [of "\<lparr>segments = [[0x0D, 0x0A, 0x0D, 0x0A, 0x00, 0x0D, 0x0A],
      [0x51, 0x52, 0x4F]], closing = ErrDeadlineExceeded\<rparr>"
      "\<lparr>segments = [[0x0D, 0x0A, 0x0D, 0x0A, 0x00, 0x0D, 0x0A, 0x51, 0x52, 0x4F]],
      closing = EOF\<rparr>"]
    handle_timeout_distinct [of "\<lparr>segments = [[0x0D, 0x0A, 0x0D, 0x0A, 0x00, 0x0D, 0x0A, 0x51,
      0x52, 0x4F, 0x54, 0x0A, 0x21, 0x11, 0x00, 0x0C, 0x7B, 0x7B], [0x7B]],
      closing = ErrDeadlineExceeded\<rparr>"
      "\<lparr>segments = [[0x0D, 0x0A, 0x0D, 0x0A, 0x00, 0x0D, 0x0A, 0x51, 0x52, 0x4F, 0x54,
      0x0A, 0x21, 0x11, 0x00, 0x0C], [0x7B, 0x7B, 0x7B]], closing = EOF\<rparr>"
      "0x21" "0x11" "0x00" "0x0C" "[0x7B, 0x7B, 0x7B]"]
  by (simp add: remaining_def ppv2Signature_def)

text \<open>
  Claim C8. A stream that ends after fewer than 16 bytes makes the handler log the
  failed read of the header, with \<open>EOF\<close> when no byte arrived and \<open>ErrUnexpectedEOF\<close>
  otherwise; it does not go on with endpoints and it does not panic.
\<close>

theorem handle_incomplete_header:
  "closing raw = EOF \<Longrightarrow> length (remaining raw) < 16 \<Longrightarrow>
   fst (handle raw) =
     Return (ErrorReadingInitialHeader (if remaining raw = [] then EOF else ErrUnexpectedEOF)) \<and>
   (\<forall>e. fst (handle raw) \<noteq> Next e) \<and> (\<forall>p. fst (handle raw) \<noteq> Panic p)"
proof -
  assume c: "closing raw = EOF" and s: "length (remaining raw) < 16"
  from handle_short_header(1) [OF s] c show ?thesis by simp
qed

theorem handle_incomplete_header_witness:
  "closing \<lparr>segments = [[0x0D, 0x0A, 0x0D, 0x0A], [0x00, 0x0D, 0x0A, 0x51, 0x52, 0x4F]],
      closing = EOF\<rparr> = EOF \<and>
   length (remaining \<lparr>segments = [[0x0D, 0x0A, 0x0D, 0x0A], [0x00, 0x0D, 0x0A, 0x51, 0x52, 0x4F]],
      closing = EOF\<rparr>) = 10 \<and>
   fst (handle \<lparr>segments = [[0x0D, 0x0A, 0x0D, 0x0A], [0x00, 0x0D, 0x0A, 0x51, 0x52, 0x4F]],
      closing = EOF\<rparr>) = Return (ErrorReadingInitialHeader ErrUnexpectedEOF)"
  using handle_incomplete_header [of "\<lparr>segments = [[0x0D, 0x0A, 0x0D, 0x0A], [0x00, 0x0D, 0x0A,
      0x51, 0x52, 0x4F]], closing = EOF\<rparr>"]
  by (simp add: remaining_def)

text \<open>
  Claim C9. Whenever the handler goes on with endpoints, the stream held at least
  16 + address_length bytes, where address_length is the big-endian value of the header
  bytes 14 and 15, and exactly these have been read: what is left of the stream is
  the rest after them, the application payload.
\<close>

theorem handle_consumes_exactly_preamble:
  "fst (handle raw) = Next e \<Longrightarrow>
     16 + (unat (remaining raw ! 14) * 256 + unat (remaining raw ! 15)) \<le> length (remaining raw) \<and>
     remaining (snd (handle raw)) =
       drop (16 + (unat (remaining raw ! 14) * 256 + unat (remaining raw ! 15))) (remaining raw)"
proof -
  assume n: "fst (handle raw) = Next e"
  show ?thesis
  proof (cases rule: handle_outcome [of raw])
    case short_header
    with n show ?thesis by simp
  next
    case (rejected l)
    with n show ?thesis by simp
  next
    case (short_block famProto addrLen)
    with n show ?thesis by simp
  next
    case (full_block famProto addrLen)
    from full_block(1) have len: "length (take 16 (remaining raw)) = 16" by simp
    from full_block(2) handle_header_spec [OF len]
    have "addrLen = ucast (remaining raw ! 15) OR push_bit 8 (ucast (remaining raw ! 14))"
      by (simp split: if_splits)
    then have "unat addrLen = unat (remaining raw ! 14) * 256 + unat (remaining raw ! 15)"
      by (simp add: be16)
    with full_block(3,5) show ?thesis by simp
  qed
qed

theorem handle_consumes_exactly_preamble_witness:
  "fst (handle \<lparr>segments = [[0x0D, 0x0A, 0x0D, 0x0A, 0x00, 0x0D, 0x0A, 0x51, 0x52, 0x4F, 0x54,
      0x0A, 0x21, 0x11, 0x00, 0x0E, 0x7B, 0x7B, 0x7B, 0x7B, 0x08, 0x08, 0x08, 0x08, 0x1F, 0x90,
      0x00, 0x50, 0xEE, 0xFF, 0x47, 0x45, 0x54]], closing = EOF\<rparr>) =
     Next \<lparr>srcIP = IPv4 123 123 123 123, dstIP = IPv4 8 8 8 8, srcPort = 8080, dstPort = 80\<rparr> \<and>
   remaining (snd (handle \<lparr>segments = [[0x0D, 0x0A, 0x0D, 0x0A, 0x00, 0x0D, 0x0A, 0x51, 0x52,
      0x4F, 0x54, 0x0A, 0x21, 0x11, 0x00, 0x0E, 0x7B, 0x7B, 0x7B, 0x7B, 0x08, 0x08, 0x08, 0x08,
      0x1F, 0x90, 0x00, 0x50, 0xEE, 0xFF, 0x47, 0x45, 0x54]], closing = EOF\<rparr>)) =
     [0x47, 0x45, 0x54]"
proof -
  have n: "fst (handle \<lparr>segments = [[0x0D, 0x0A, 0x0D, 0x0A, 0x00, 0x0D, 0x0A, 0x51, 0x52, 0x4F,
      0x54, 0x0A, 0x21, 0x11, 0x00, 0x0E, 0x7B, 0x7B, 0x7B, 0x7B, 0x08, 0x08, 0x08, 0x08, 0x1F,
      0x90, 0x00, 0x50, 0xEE, 0xFF, 0x47, 0x45, 0x54]], closing = EOF\<rparr>) =
     Next \<lparr>srcIP = IPv4 123 123 123 123, dstIP = IPv4 8 8 8 8, srcPort = 8080, dstPort = 80\<rparr>"
    by code_simp
  from handle_consumes_exactly_preamble [OF n] n show ?thesis
    by (simp add: remaining_def)
qed

text \<open>
  Claim C10. When the header declares more than 12 bytes for IPv4, or more than 36 for
  IPv6, and the stream delivers them, the handler goes on with the endpoints read from
  the first 12 (or 36) bytes of the block only, and the whole block has been read: the
  stream is left at the first byte after it.
\<close>

theorem handle_ignores_surplus:
  "(remaining raw = ppv2Signature @ [verCmd, famProto, hi, lo] @ b @ rest \<and>
    drop_bit 4 verCmd = 2 \<and> verCmd AND 0x0F = 1 \<and> length b = unat hi * 256 + unat lo \<and>
    drop_bit 4 famProto = 1 \<and> 12 < length b \<longrightarrow>
      fst (handle raw) =
        Next \<lparr>srcIP = IPv4 (b ! 0) (b ! 1) (b ! 2) (b ! 3),
              dstIP = IPv4 (b ! 4) (b ! 5) (b ! 6) (b ! 7),
              srcPort = ucast (b ! 9) OR push_bit 8 (ucast (b ! 8)),
              dstPort = ucast (b ! 11) OR push_bit 8 (ucast (b ! 10))\<rparr> \<and>
      remaining (snd (handle raw)) = rest) \<and>
   (remaining raw = ppv2Signature @ [verCmd, famProto, hi, lo] @ b @ rest \<and>
    drop_bit 4 verCmd = 2 \<and> verCmd AND 0x0F = 1 \<and> length b = unat hi * 256 + unat lo \<and>
    drop_bit 4 famProto = 2 \<and> 36 < length b \<longrightarrow>
      fst (handle raw) =
        Next \<lparr>srcIP = take 16 b, dstIP = take 16 (drop 16 b),
              srcPort = ucast (b ! 33) OR push_bit 8 (ucast (b ! 32)),
              dstPort = ucast (b ! 35) OR push_bit 8 (ucast (b ! 34))\<rparr> \<and>
      remaining (snd (handle raw)) = rest)"
proof (rule conjI; rule impI)
  assume a: "remaining raw = ppv2Signature @ [verCmd, famProto, hi, lo] @ b @ rest \<and>
    drop_bit 4 verCmd = 2 \<and> verCmd AND 0x0F = 1 \<and> length b = unat hi * 256 + unat lo \<and>
    drop_bit 4 famProto = 1 \<and> 12 < length b"
  then have r: "remaining raw = ppv2Signature @ [verCmd, famProto, hi, lo] @ b @ rest"
    and v: "drop_bit 4 verCmd = 2" "verCmd AND 0x0F = 1"
    and l: "length b = unat hi * 256 + unat lo" by simp_all
  from handle_delivered [OF r v l] a
  show "fst (handle raw) =
        Next \<lparr>srcIP = IPv4 (b ! 0) (b ! 1) (b ! 2) (b ! 3),
              dstIP = IPv4 (b ! 4) (b ! 5) (b ! 6) (b ! 7),
              srcPort = ucast (b ! 9) OR push_bit 8 (ucast (b ! 8)),
              dstPort = ucast (b ! 11) OR push_bit 8 (ucast (b ! 10))\<rparr> \<and>
      remaining (snd (handle raw)) = rest"
    by (simp add: handle_addrBlock_IPv4)
next
  assume a: "remaining raw = ppv2Signature @ [verCmd, famProto, hi, lo] @ b @ rest \<and>
    drop_bit 4 verCmd = 2 \<and> verCmd AND 0x0F = 1 \<and> length b = unat hi * 256 + unat lo \<and>
    drop_bit 4 famProto = 2 \<and> 36 < length b"
  then have r: "remaining raw = ppv2Signature @ [verCmd, famProto, hi, lo] @ b @ rest"
    and v: "drop_bit 4 verCmd = 2" "verCmd AND 0x0F = 1"
    and l: "length b = unat hi * 256 + unat lo" by simp_all
  from handle_delivered [OF r v l] a
  show "fst (handle raw) =
        Next \<lparr>srcIP = take 16 b, dstIP = take 16 (drop 16 b),
              srcPort = ucast (b ! 33) OR push_bit 8 (ucast (b ! 32)),
              dstPort = ucast (b ! 35) OR push_bit 8 (ucast (b ! 34))\<rparr> \<and>
      remaining (snd (handle raw)) = rest"
    by (simp add: handle_addrBlock_IPv6)
qed

theorem handle_ignores_surplus_witness:
  "remaining \<lparr>segments = [[0x0D, 0x0A, 0x0D, 0x0A, 0x00, 0x0D, 0x0A, 0x51, 0x52, 0x4F, 0x54,
      0x0A, 0x21, 0x11, 0x00, 0x0F, 0x7B, 0x7B, 0x7B, 0x7B, 0x08, 0x08], [0x08, 0x08, 0x1F, 0x90,
      0x00, 0x50, 0x04, 0x00, 0x00, 0x47, 0x45, 0x54]], closing = EOF\<rparr> =
     ppv2Signature @ [0x21, 0x11, 0x00, 0x0F] @
       [0x7B, 0x7B, 0x7B, 0x7B, 0x08, 0x08, 0x08, 0x08, 0x1F, 0x90, 0x00, 0x50, 0x04, 0x00, 0x00] @
       [0x47, 0x45, 0x54] \<and>
   drop_bit 4 (0x21 :: byte) = 2 \<and> (0x21 :: byte) AND 0x0F = 1 \<and> drop_bit 4 (0x11 :: byte) = 1 \<and>
   unat (0x00 :: byte) * 256 + unat (0x0F :: byte) = 15 \<and>
   fst (handle \<lparr>segments = [[0x0D, 0x0A, 0x0D, 0x0A, 0x00, 0x0D, 0x0A, 0x51, 0x52, 0x4F, 0x54,
      0x0A, 0x21, 0x11, 0x00, 0x0F, 0x7B, 0x7B, 0x7B, 0x7B, 0x08, 0x08], [0x08, 0x08, 0x1F, 0x90,
      0x00, 0x50, 0x04, 0x00, 0x00, 0x47, 0x45, 0x54]], closing = EOF\<rparr>) =
     Next \<lparr>srcIP = IPv4 123 123 123 123, dstIP = IPv4 8 8 8 8, srcPort = 8080, dstPort = 80\<rparr> \<and>
   remaining (snd (handle \<lparr>segments = [[0x0D, 0x0A, 0x0D, 0x0A, 0x00, 0x0D, 0x0A, 0x51, 0x52,
      0x4F, 0x54, 0x0A, 0x21, 0x11, 0x00, 0x0F, 0x7B, 0x7B, 0x7B, 0x7B, 0x08, 0x08], [0x08, 0x08,
      0x1F, 0x90, 0x00, 0x50, 0x04, 0x00, 0x00, 0x47, 0x45, 0x54]], closing = EOF\<rparr>)) =
     [0x47, 0x45, 0x54] \<and>
   fst (handle \<lparr>segments = [[0x0D, 0x0A, 0x0D, 0x0A, 0x00, 0x0D, 0x0A, 0x51, 0x52, 0x4F, 0x54,
      0x0A, 0x21, 0x21, 0x00, 0x25], [0x20, 0x01, 0x0D, 0xB8, 0, 0, 0, 0, 0, 0, 0, 0, 0, 0, 0, 1,
      0x20, 0x01, 0x0D, 0xB8, 0, 0, 0, 0, 0, 0, 0, 0, 0, 0, 0, 2, 0x1F, 0x90, 0x00, 0x50, 0xEE,
      0x47]], closing = EOF\<rparr>) =
     Next \<lparr>srcIP = [0x20, 0x01, 0x0D, 0xB8, 0, 0, 0, 0, 0, 0, 0, 0, 0, 0, 0, 1],
           dstIP = [0x20, 0x01, 0x0D, 0xB8, 0, 0, 0, 0, 0, 0, 0, 0, 0, 0, 0, 2],
           srcPort = 8080, dstPort = 80\<rparr> \<and>
   remaining (snd (handle \<lparr>segments = [[0x0D, 0x0A, 0x0D, 0x0A, 0x00, 0x0D, 0x0A, 0x51, 0x52,
      0x4F, 0x54, 0x0A, 0x21, 0x21, 0x00, 0x25], [0x20, 0x01, 0x0D, 0xB8, 0, 0, 0, 0, 0, 0, 0, 0,
      0, 0, 0, 1, 0x20, 0x01, 0x0D, 0xB8, 0, 0, 0, 0, 0, 0, 0, 0, 0, 0, 0, 2, 0x1F, 0x90, 0x00,
      0x50, 0xEE, 0x47]], closing = EOF\<rparr>)) = [0x47]"
  using
    handle_ignores_surplus [of "\<lparr>segments = [[0x0D, 0x0A, 0x0D, 0x0A, 0x00, 0x0D, 0x0A, 0x51,
      0x52, 0x4F, 0x54, 0x0A, 0x21, 0x11, 0x00, 0x0F, 0x7B, 0x7B, 0x7B, 0x7B, 0x08, 0x08], [0x08,
      0x08, 0x1F, 0x90, 0x00, 0x50, 0x04, 0x00, 0x00, 0x47, 0x45, 0x54]], closing = EOF\<rparr>"
      "0x21" "0x11" "0x00" "0x0F"
      "[0x7B, 0x7B, 0x7B, 0x7B, 0x08, 0x08, 0x08, 0x08, 0x1F, 0x90, 0x00, 0x50, 0x04, 0x00, 0x00]"
      "[0x47, 0x45, 0x54]"]
    handle_ignores_surplus [of "\<lparr>segments = [[0x0D, 0x0A, 0x0D, 0x0A, 0x00, 0x0D, 0x0A, 0x51,
      0x52, 0x4F, 0x54, 0x0A, 0x21, 0x21, 0x00, 0x25], [0x20, 0x01, 0x0D, 0xB8, 0, 0, 0, 0, 0, 0,
      0, 0, 0, 0, 0, 1, 0x20, 0x01, 0x0D, 0xB8, 0, 0, 0, 0, 0, 0, 0, 0, 0, 0, 0, 2, 0x1F, 0x90,
      0x00, 0x50, 0xEE, 0x47]], closing = EOF\<rparr>"
      "0x21" "0x21" "0x00" "0x25"
      "[0x20, 0x01, 0x0D, 0xB8, 0, 0, 0, 0, 0, 0, 0, 0, 0, 0, 0, 1, 0x20, 0x01, 0x0D, 0xB8, 0, 0,
        0, 0, 0, 0, 0, 0, 0, 0, 0, 2, 0x1F, 0x90, 0x00, 0x50, 0xEE]" "[0x47]"]
  by (simp add: remaining_def ppv2Signature_def IPv4_def)

end
